theory Spec2Isabelle
  imports Complex_Main "HOL-Library.Word" "HOL-Library.Log_Nat"
begin

unbundle bit_operations_syntax

section \<open>Page cache status of a file: pkg/pcstats/pcstatus.go\<close>

text \<open>
  The Go package asks the operating system how many pages of a file are resident in the
  page cache. Every interaction with the system (open, stat, ioctl, the clock, the
  residency probe) is modelled as a step on an explicit world: the answers of the system
  are fields of the world, the handles the process holds and the calls it has issued are
  recorded in it. Go's \<open>int\<close> and \<open>int64\<close> are 64-bit words (the package is built for
  64-bit Linux), \<open>float64\<close> is IEEE 754 binary64 with round-to-nearest-even.
\<close>

subsection \<open>binary64 arithmetic\<close>

text \<open>
  A \<open>float64\<close> value is a finite real (always one that binary64 represents, since every
  operation rounds), the negative zero, an infinity or NaN. \<open>Finite 0\<close> is the positive
  zero.
\<close>

datatype float64 = Finite real | NegZero | PosInf | NegInf | NaN

text \<open>Round half to even, on the integers.\<close>

definition rhe :: "real \<Rightarrow> int" where
  "rhe t =
     (let n = \<lfloor>t\<rfloor>; d = t - of_int n
      in if d < 1 / 2 then n
         else if 1 / 2 < d then n + 1
         else if even n then n else n + 1)"

text \<open>
  The binary exponent of a positive real: \<open>expo a = e\<close> where \<open>2^e \<le> a < 2^(e+1)\<close>,
  computed from the bit length of an integer.
\<close>

definition expo :: "real \<Rightarrow> int" where
  "expo a = (if 1 \<le> a then bitlen \<lfloor>a\<rfloor> - 1 else - bitlen (\<lceil>1 / a\<rceil> - 1))"

text \<open>
  The magnitude of the binary64 value nearest to \<open>a > 0\<close>, before the overflow check:
  53 significant bits, the exponent is at least -1022 (below it the values are subnormal
  and one unit in the last place is \<open>2^-1074\<close>).
\<close>

definition round_mag :: "real \<Rightarrow> real" where
  "round_mag a =
     (let e = max (expo a) (- 1022); q = 2 powi (e - 52)
      in of_int (rhe (a / q)) * q)"

definition round64 :: "real \<Rightarrow> float64" where
  "round64 x =
     (if x = 0 then Finite 0
      else let r = round_mag \<bar>x\<bar>
           in if 2 powi 1024 \<le> r then (if 0 < x then PosInf else NegInf)
              else if r = 0 \<and> x < 0 then NegZero
              else Finite (sgn x * r))"

definition is_zero :: "float64 \<Rightarrow> bool" where
  "is_zero x = (x = Finite 0 \<or> x = NegZero)"

definition is_inf :: "float64 \<Rightarrow> bool" where
  "is_inf x = (x = PosInf \<or> x = NegInf)"

fun sign_bit :: "float64 \<Rightarrow> bool" where
  "sign_bit (Finite r) = (r < 0)"
| "sign_bit NegZero = True"
| "sign_bit PosInf = False"
| "sign_bit NegInf = True"
| "sign_bit NaN = False"

fun real_of :: "float64 \<Rightarrow> real" where
  "real_of (Finite r) = r"
| "real_of _ = 0"

definition signed_zero :: "bool \<Rightarrow> float64" where
  "signed_zero s = (if s then NegZero else Finite 0)"

definition signed_inf :: "bool \<Rightarrow> float64" where
  "signed_inf s = (if s then NegInf else PosInf)"

text \<open>Go's conversion \<open>float64(n)\<close> of an integer.\<close>

definition float64_of_int :: "int \<Rightarrow> float64" where
  "float64_of_int n = round64 (of_int n)"

text \<open>The operators \<open>/\<close> and \<open>*\<close> on \<open>float64\<close>.\<close>

definition fdiv :: "float64 \<Rightarrow> float64 \<Rightarrow> float64" where
  "fdiv x y =
     (let s = (sign_bit x \<noteq> sign_bit y)
      in if x = NaN \<or> y = NaN then NaN
         else if is_inf x \<and> is_inf y then NaN
         else if is_zero x \<and> is_zero y then NaN
         else if is_inf x then signed_inf s
         else if is_inf y then signed_zero s
         else if is_zero y then signed_inf s
         else if is_zero x then signed_zero s
         else round64 (real_of x / real_of y))"

definition fmul :: "float64 \<Rightarrow> float64 \<Rightarrow> float64" where
  "fmul x y =
     (let s = (sign_bit x \<noteq> sign_bit y)
      in if x = NaN \<or> y = NaN then NaN
         else if (is_inf x \<and> is_zero y) \<or> (is_zero x \<and> is_inf y) then NaN
         else if is_inf x \<or> is_inf y then signed_inf s
         else if is_zero x \<or> is_zero y then signed_zero s
         else round64 (real_of x * real_of y))"

subsection \<open>Data\<close>

type_synonym int64 = "64 word"
type_synonym go_int = "64 word"
type_synonym FileMode = "32 word"

text \<open>An instant; the zero value of \<open>time.Time\<close> is \<open>0\<close>.\<close>

type_synonym Time = nat

text \<open>
  Error values. \<open>Errno\<close> is a \<open>syscall.Errno\<close>, \<open>Foreign\<close> stands for any error made
  outside this package (by the operating system layer, the filter or the residency
  probe), \<open>ErrorsNew\<close> is \<open>errors.New(msg)\<close> and \<open>Errorf prefix e\<close> is
  \<open>fmt.Errorf(prefix + "%v", e)\<close>.
\<close>

datatype error = Errno nat | Foreign string | ErrorsNew string | Errorf string error

text \<open>
  An open \<open>*os.File\<close>: the identity of the handle and the path it was opened with.
\<close>

record File =
  fid :: nat
  fpath :: string

record FileInfo =
  fi_Size :: int64
  fi_Mode :: FileMode
  fi_ModTime :: Time

text \<open>The mode bits of Go's \<open>io/fs\<close> that the package tests.\<close>

definition ModeDir :: FileMode where
  "ModeDir = push_bit 31 1"

definition ModeDevice :: FileMode where
  "ModeDevice = push_bit 26 1"

definition ModeCharDevice :: FileMode where
  "ModeCharDevice = push_bit 21 1"

definition IsDir :: "FileInfo \<Rightarrow> bool" where
  "IsDir info = (fi_Mode info AND ModeDir \<noteq> 0)"

record PcStatus =
  Name :: string
  Size :: int64
  Timestamp :: Time
  Mtime :: Time
  Pages :: go_int
  Cached :: go_int
  Uncached :: go_int
  Percent :: float64

text \<open>
  Modelled from the spec: the declaration of the report type \<open>Mincore\<close> is not in
  pcstatus.go. The spec gives the report two integer counts, \<open>Cached\<close> and \<open>Miss\<close>;
  they are taken as 64-bit integers, so that the conversion \<open>int(...)\<close> keeps the bits.
\<close>

record Mincore =
  mc_Cached :: int64
  mc_Miss :: int64

definition BLKGETSIZE64 :: "32 word" where
  "BLKGETSIZE64 = 0x80081272"

subsection \<open>The world\<close>

text \<open>
  What the operating system answers. \<open>sys_open path\<close> is the error of opening \<open>path\<close>
  for reading, if any; \<open>sys_ioctl f req\<close> is the value the request leaves in the
  variable it is given (initially 0) and the \<open>errno\<close> of the system call.
\<close>

record sys =
  sys_open :: "string \<Rightarrow> error option"
  sys_fstat :: "File \<Rightarrow> error + FileInfo"
  sys_stat :: "string \<Rightarrow> error + FileInfo"
  sys_ioctl :: "File \<Rightarrow> 32 word \<Rightarrow> int64 \<times> nat"
  sys_now :: Time

datatype call =
    OsOpen string "File option"
  | FilterCall File
  | FileStat File
  | OsStat string
  | Ioctl File "32 word"
  | TimeNow
  | FileMincore File int64
  | FileClose File

record world =
  env :: sys
  next_fid :: nat
  open_files :: "File list"
  calls :: "call list"

definition log_call :: "call \<Rightarrow> world \<Rightarrow> world" where
  "log_call c w = w\<lparr>calls := calls w @ [c]\<rparr>"

text \<open>The calls issued on the way from the world \<open>w\<close> to the world \<open>w'\<close>.\<close>

definition issued :: "world \<Rightarrow> world \<Rightarrow> call list" where
  "issued w w' = drop (length (calls w)) (calls w')"

text \<open>\<open>os.Open\<close>: a new handle on success.\<close>

definition new_File :: "world \<Rightarrow> string \<Rightarrow> File" where
  "new_File w path = \<lparr>fid = next_fid w, fpath = path\<rparr>"

definition os_Open :: "string \<Rightarrow> world \<Rightarrow> (error + File) \<times> world" where
  "os_Open path w =
     (case sys_open (env w) path of
        Some err \<Rightarrow> (Inl err, log_call (OsOpen path None) w)
      | None \<Rightarrow>
          (let f = new_File w path
           in (Inr f, log_call (OsOpen path (Some f))
                        (w\<lparr>next_fid := next_fid w + 1, open_files := f # open_files w\<rparr>))))"

text \<open>\<open>f.Close()\<close>; the package ignores its result.\<close>

definition File_Close :: "File \<Rightarrow> world \<Rightarrow> world" where
  "File_Close f w = log_call (FileClose f) (w\<lparr>open_files := removeAll f (open_files w)\<rparr>)"

definition File_Stat :: "File \<Rightarrow> world \<Rightarrow> (error + FileInfo) \<times> world" where
  "File_Stat f w = (sys_fstat (env w) f, log_call (FileStat f) w)"

definition os_Stat :: "string \<Rightarrow> world \<Rightarrow> (error + FileInfo) \<times> world" where
  "os_Stat path w = (sys_stat (env w) path, log_call (OsStat path) w)"

definition time_Now :: "world \<Rightarrow> Time \<times> world" where
  "time_Now w = (sys_now (env w), log_call TimeNow w)"

text \<open>
  The caller's filter sees the handle and the system; it answers with an error or none
  and may leave the system changed. The handles of the process and the log of calls are
  not its to change. (The parameter \<open>filter\<close> of the source is written \<open>filt\<close>: the
  name is taken by a list function.)
\<close>

type_synonym filter_fn = "File \<Rightarrow> sys \<Rightarrow> error option \<times> sys"

definition run_filter :: "filter_fn \<Rightarrow> File \<Rightarrow> world \<Rightarrow> error option \<times> world" where
  "run_filter filt f w =
     (let (r, s) = filt f (env w)
      in (r, log_call (FilterCall f) (w\<lparr>env := s\<rparr>)))"

text \<open>
  The residency probe \<open>GetFileMincore(f, size)\<close> is defined in another file of the
  package; \<open>GetPcStatus\<close> takes it as the parameter \<open>prov\<close>. It returns a report (or
  nil) and an error (or nil).
\<close>

type_synonym provider = "File \<Rightarrow> int64 \<Rightarrow> sys \<Rightarrow> Mincore option \<times> error option"

definition call_provider ::
  "provider \<Rightarrow> File \<Rightarrow> int64 \<Rightarrow> world \<Rightarrow> (Mincore option \<times> error option) \<times> world" where
  "call_provider prov f sz w = (prov f sz (env w), log_call (FileMincore f sz) w)"

text \<open>
  Modelled from the spec: the body of \<open>GetFileMincore\<close> is not in pcstatus.go. The spec
  (4.3) says of the provider that for a byte length \<open>N = 0\<close> it yields no residency data,
  an absent result that is not an error; for any other length it reports or fails as the
  underlying probe does.
\<close>

definition GetFileMincore :: "provider \<Rightarrow> provider" where
  "GetFileMincore probe f sz s = (if sz = 0 then (None, None) else probe f sz s)"

subsection \<open>The functions of pcstatus.go\<close>

text \<open>
  \<open>_isBlockDevice(path)\<close>: a device that is not a character device; \<open>blockMode\<close> is
  the test it returns. (An Isabelle name cannot start with an underscore.)
\<close>

definition blockMode :: "FileMode \<Rightarrow> bool" where
  "blockMode mode = (mode AND ModeDevice \<noteq> 0 \<and> mode AND ModeCharDevice = 0)"

definition isBlockDevice :: "string \<Rightarrow> world \<Rightarrow> (error + bool) \<times> world" where
  "isBlockDevice path w =
     (case os_Stat path w of
        (Inl err, w1) \<Rightarrow> (Inl err, w1)
      | (Inr info, w1) \<Rightarrow> (let mode = fi_Mode info in (Inr (blockMode mode), w1)))"

text \<open>
  \<open>getBlockDeviceSize(path)\<close> opens the path, asks the handle for the size of the device
  and closes the handle when it returns.
\<close>

definition getBlockDeviceSize :: "string \<Rightarrow> world \<Rightarrow> (int64 \<times> error option) \<times> world" where
  "getBlockDeviceSize path w =
     (case os_Open path w of
        (Inl err, w1) \<Rightarrow> ((0, Some err), w1)
      | (Inr file, w1) \<Rightarrow>
          (let (sz, errno) = sys_ioctl (env w1) file BLKGETSIZE64;
               w2 = log_call (Ioctl file BLKGETSIZE64) w1;
               r = (if errno \<noteq> 0 then (0, Some (Errno errno)) else (sz, None))
           in (r, File_Close file w2)))"

definition new_PcStatus :: "string \<Rightarrow> PcStatus" where
  "new_PcStatus fname =
     \<lparr>Name = fname, Size = 0, Timestamp = 0, Mtime = 0, Pages = 0, Cached = 0,
      Uncached = 0, Percent = Finite 0\<rparr>"

text \<open>The last four statements of \<open>GetPcStatus\<close>, on a report that is present.\<close>

definition aggregate :: "PcStatus \<Rightarrow> Mincore \<Rightarrow> PcStatus" where
  "aggregate pcs0 mincore =
     (let pcs1 = pcs0\<lparr>Cached := mc_Cached mincore\<rparr>;
          pcs2 = pcs1\<lparr>Pages := mc_Cached mincore + mc_Miss mincore\<rparr>;
          pcs3 = pcs2\<lparr>Uncached := mc_Miss mincore\<rparr>
      in pcs3\<lparr>Percent :=
           fmul (fdiv (float64_of_int (sint (Cached pcs3))) (float64_of_int (sint (Pages pcs3))))
                (Finite 100)\<rparr>)"

text \<open>
  \<open>GetPcStatus\<close> after the target is open: everything between \<open>defer f.Close()\<close> and
  the return.
\<close>

definition GetPcStatus_opened ::
  "provider \<Rightarrow> string \<Rightarrow> filter_fn \<Rightarrow> PcStatus \<Rightarrow> File \<Rightarrow> world
     \<Rightarrow> (PcStatus \<times> error option) \<times> world" where
  "GetPcStatus_opened prov fname filt pcs f w1 =
     (case run_filter filt f w1 of
        (Some err, w2) \<Rightarrow> ((pcs, Some err), w2)
      | (None, w2) \<Rightarrow>
     (case File_Stat f w2 of
        (Inl err, w3) \<Rightarrow> ((pcs, Some (Errorf ''could not stat file: '' err)), w3)
      | (Inr finfo, w3) \<Rightarrow>
     if IsDir finfo then ((pcs, Some (ErrorsNew ''file is a directory'')), w3)
     else
     (case isBlockDevice fname w3 of
        (Inl err, w4) \<Rightarrow> ((pcs, Some err), w4)
      | (Inr isBlock, w4) \<Rightarrow>
     (case (if isBlock then getBlockDeviceSize fname w4 else ((fi_Size finfo, None), w4)) of
        ((sz, Some err), w5) \<Rightarrow> ((pcs\<lparr>Size := sz\<rparr>, Some err), w5)
      | ((sz, None), w5) \<Rightarrow>
     (let pcs1 = pcs\<lparr>Size := sz\<rparr>;
          (now, w6) = time_Now w5;
          pcs2 = pcs1\<lparr>Timestamp := now\<rparr>;
          pcs3 = pcs2\<lparr>Mtime := fi_ModTime finfo\<rparr>
      in
     (case call_provider prov f (Size pcs3) w6 of
        ((mincore, Some err), w7) \<Rightarrow> ((pcs3, Some err), w7)
      | ((None, None), w7) \<Rightarrow> ((pcs3, None), w7)
      | ((Some mincore, None), w7) \<Rightarrow> ((aggregate pcs3 mincore, None), w7)))))))"

definition GetPcStatus ::
  "provider \<Rightarrow> string \<Rightarrow> filter_fn \<Rightarrow> world \<Rightarrow> (PcStatus \<times> error option) \<times> world" where
  "GetPcStatus prov fname filt w =
     (let pcs = new_PcStatus fname
      in case os_Open fname w of
           (Inl err, w1) \<Rightarrow> ((pcs, Some (Errorf ''could not open file for read: '' err)), w1)
         | (Inr f, w1) \<Rightarrow>
             (let (r, w8) = GetPcStatus_opened prov fname filt pcs f w1
              in (r, File_Close f w8)))"

subsection \<open>A small system to run the functions on\<close>

text \<open>
  Four paths exist: a regular file of two pages, an empty regular file, a directory and a
  block device whose stat size is 0 and whose capacity is 1048576 bytes. The probe finds
  one of the two pages of the regular file resident and none of the 256 of the device.
\<close>

definition example_stat :: "string \<Rightarrow> error + FileInfo" where
  "example_stat p =
     (if p = ''/data/log'' then Inr \<lparr>fi_Size = 8192, fi_Mode = 0x1A4, fi_ModTime = 1600\<rparr>
      else if p = ''/data/empty'' then Inr \<lparr>fi_Size = 0, fi_Mode = 0x1A4, fi_ModTime = 1601\<rparr>
      else if p = ''/data'' then Inr \<lparr>fi_Size = 4096, fi_Mode = ModeDir OR 0x1ED, fi_ModTime = 1602\<rparr>
      else if p = ''/dev/sda'' then Inr \<lparr>fi_Size = 0, fi_Mode = ModeDevice OR 0x1B0, fi_ModTime = 1603\<rparr>
      else Inl (Foreign ''no such file or directory''))"

definition example_sys :: sys where
  "example_sys =
     \<lparr>sys_open = (\<lambda>p. case example_stat p of Inl e \<Rightarrow> Some e | Inr _ \<Rightarrow> None),
      sys_fstat = (\<lambda>f. example_stat (fpath f)),
      sys_stat = example_stat,
      sys_ioctl = (\<lambda>f req. if fpath f = ''/dev/sda'' \<and> req = BLKGETSIZE64
                             then (1048576, 0) else (0, 25)),
      sys_now = 1700\<rparr>"

definition example_world :: world where
  "example_world = \<lparr>env = example_sys, next_fid = 3, open_files = [], calls = []\<rparr>"

definition example_probe :: provider where
  "example_probe f sz s =
     (if fpath f = ''/data/log'' then (Some \<lparr>mc_Cached = 1, mc_Miss = 1\<rparr>, None)
      else if fpath f = ''/dev/sda'' then (Some \<lparr>mc_Cached = 0, mc_Miss = 256\<rparr>, None)
      else (None, Some (Foreign ''cannot allocate memory'')))"

text \<open>What probing the regular file and the empty file returns, and the calls it issues.\<close>

definition log_status :: PcStatus where
  "log_status =
     \<lparr>Name = ''/data/log'', Size = 8192, Timestamp = 1700, Mtime = 1600, Pages = 2,
      Cached = 1, Uncached = 1, Percent = Finite 50\<rparr>"

definition log_calls :: "call list" where
  "log_calls =
     [OsOpen ''/data/log'' (Some \<lparr>fid = 3, fpath = ''/data/log''\<rparr>),
      FilterCall \<lparr>fid = 3, fpath = ''/data/log''\<rparr>,
      FileStat \<lparr>fid = 3, fpath = ''/data/log''\<rparr>,
      OsStat ''/data/log'',
      TimeNow,
      FileMincore \<lparr>fid = 3, fpath = ''/data/log''\<rparr> 8192,
      FileClose \<lparr>fid = 3, fpath = ''/data/log''\<rparr>]"

definition empty_status :: PcStatus where
  "empty_status =
     \<lparr>Name = ''/data/empty'', Size = 0, Timestamp = 1700, Mtime = 1601, Pages = 0,
      Cached = 0, Uncached = 0, Percent = Finite 0\<rparr>"

definition empty_calls :: "call list" where
  "empty_calls =
     [OsOpen ''/data/empty'' (Some \<lparr>fid = 3, fpath = ''/data/empty''\<rparr>),
      FilterCall \<lparr>fid = 3, fpath = ''/data/empty''\<rparr>,
      FileStat \<lparr>fid = 3, fpath = ''/data/empty''\<rparr>,
      OsStat ''/data/empty'',
      TimeNow,
      FileMincore \<lparr>fid = 3, fpath = ''/data/empty''\<rparr> 0,
      FileClose \<lparr>fid = 3, fpath = ''/data/empty''\<rparr>]"

text \<open>Two filters: one lets every file through, one turns every file away.\<close>

definition accept :: filter_fn where
  "accept f s = (None, s)"

definition reject :: filter_fn where
  "reject f s = (Some (Foreign ''rejected by policy''), s)"

section \<open>Properties\<close>

subsection \<open>Unfolding the model\<close>

lemmas prim_defs = os_Open_def File_Close_def File_Stat_def os_Stat_def time_Now_def
  run_filter_def call_provider_def log_call_def new_File_def

lemmas go_defs = GetPcStatus_def GetPcStatus_opened_def isBlockDevice_def
  getBlockDeviceSize_def new_PcStatus_def

lemmas example_defs = example_stat_def example_sys_def example_world_def example_probe_def
  accept_def reject_def

lemmas mode_defs = blockMode_def IsDir_def ModeDir_def ModeDevice_def ModeCharDevice_def

lemma aggregate_fields:
  "Name (aggregate p m) = Name p" "Size (aggregate p m) = Size p"
  "Timestamp (aggregate p m) = Timestamp p" "Mtime (aggregate p m) = Mtime p"
  "Cached (aggregate p m) = mc_Cached m" "Uncached (aggregate p m) = mc_Miss m"
  "Pages (aggregate p m) = mc_Cached m + mc_Miss m"
  "Percent (aggregate p m) =
     fmul (fdiv (float64_of_int (sint (mc_Cached m)))
                (float64_of_int (sint (mc_Cached m + mc_Miss m)))) (Finite 100)"
  by (simp_all add: aggregate_def Let_def)

text \<open>
  A call that returns no error, or that has invoked the residency probe, has passed every
  earlier stage; the record it returns is determined by what the probe answered.
\<close>

lemma probe_inversion:
  assumes run: "GetPcStatus prov fname filt w = ((pcs, err), w')"
      and reach: "err = None \<or> FileMincore f sz \<in> set (issued w w')"
  obtains s finfo sz0 where
      "sys_open (env w) fname = None"
      "filt (new_File w fname) (env w) = (None, s)" "env w' = s"
      "sys_fstat s (new_File w fname) = Inr finfo"
      "FileMincore (new_File w fname) sz0 \<in> set (issued w w')"
      "FileMincore f sz \<in> set (issued w w') \<Longrightarrow> f = new_File w fname \<and> sz = sz0"
      "Name pcs = fname" "Size pcs = sz0" "Timestamp pcs = sys_now s"
      "Mtime pcs = fi_ModTime finfo"
      "case prov (new_File w fname) sz0 s of
         (_, Some e) \<Rightarrow> err = Some e \<and> Pages pcs = 0 \<and> Cached pcs = 0 \<and> Uncached pcs = 0
                          \<and> Percent pcs = Finite 0
       | (None, None) \<Rightarrow> err = None \<and> Pages pcs = 0 \<and> Cached pcs = 0 \<and> Uncached pcs = 0
                          \<and> Percent pcs = Finite 0
       | (Some m, None) \<Rightarrow> err = None \<and> (\<exists>p. pcs = aggregate p m)"
proof -
  let ?f = "new_File w fname"
  note defs = go_defs prim_defs issued_def Let_def
  from run reach have op: "sys_open (env w) fname = None"
    by (cases "sys_open (env w) fname") (auto simp: defs)
  obtain r s where fl: "filt ?f (env w) = (r, s)"
    by (cases "filt ?f (env w)")
  from run reach op fl have r: "r = None"
    by (cases r) (auto simp: defs)
  obtain finfo where st: "sys_fstat s ?f = Inr finfo"
    using run reach op fl r by (cases "sys_fstat s ?f") (auto simp: defs)
  from run reach op fl r st have nd: "\<not> IsDir finfo"
    by (cases "IsDir finfo") (auto simp: defs)
  obtain info where ps: "sys_stat s fname = Inr info"
    using run reach op fl r st nd by (cases "sys_stat s fname") (auto simp: defs)
  show thesis
  proof (cases "blockMode (fi_Mode info)")
    case False
    obtain m e where pr: "prov ?f (fi_Size finfo) s = (m, e)"
      by (cases "prov ?f (fi_Size finfo) s")
    show ?thesis
      by (rule that[of s finfo "fi_Size finfo"];
          use run reach op fl r st nd ps False pr in
            \<open>auto simp: defs aggregate_fields split: option.splits\<close>)
  next
    case True
    let ?g = "\<lparr>fid = next_fid w + 1, fpath = fname\<rparr>"
    from run reach op fl r st nd ps True have op2: "sys_open s fname = None"
      by (cases "sys_open s fname") (auto simp: defs)
    obtain v errno where io: "sys_ioctl s ?g BLKGETSIZE64 = (v, errno)"
      by (cases "sys_ioctl s ?g BLKGETSIZE64")
    from run reach op fl r st nd ps True op2 io have en: "errno = 0"
      by (cases "errno = 0") (auto simp: defs)
    obtain m e where pr: "prov ?f v s = (m, e)"
      by (cases "prov ?f v s")
    show ?thesis
      by (rule that[of s finfo v];
          use run reach op fl r st nd ps True op2 io en pr in
            \<open>auto simp: defs aggregate_fields split: option.splits\<close>)
  qed
qed

subsection \<open>Rounding to binary64\<close>

text \<open>
  Rounding half to even is monotone, fixes the integers and moves a real by at most a half.
\<close>

lemma rhe_of_int: "rhe (of_int k) = k"
  by (simp add: rhe_def)

lemma rhe_lower: "t - 1 / 2 \<le> of_int (rhe t)"
  unfolding rhe_def Let_def by (auto split: if_splits) linarith+

lemma rhe_upper: "of_int (rhe t) \<le> t + 1 / 2"
  unfolding rhe_def Let_def by (auto split: if_splits) linarith+

lemma rhe_floor_le: "\<lfloor>t\<rfloor> \<le> rhe t"
  unfolding rhe_def Let_def by auto

lemma rhe_le_floor_Suc: "rhe t \<le> \<lfloor>t\<rfloor> + 1"
  unfolding rhe_def Let_def by auto

lemma rhe_mono:
  assumes "t \<le> u"
  shows "rhe t \<le> rhe u"
proof (cases "\<lfloor>t\<rfloor> = \<lfloor>u\<rfloor>")
  case True
  with assms show ?thesis
    unfolding rhe_def Let_def by (auto split: if_splits)
next
  case False
  with assms have "\<lfloor>t\<rfloor> < \<lfloor>u\<rfloor>"
    by (simp add: floor_mono order.not_eq_order_implies_strict)
  then have "rhe t \<le> \<lfloor>u\<rfloor>"
    using rhe_le_floor_Suc [of t] by linarith
  also have "\<dots> \<le> rhe u"
    by (rule rhe_floor_le)
  finally show ?thesis .
qed

lemma expo_bounds:
  assumes "0 < a"
  shows "2 powi expo a \<le> a" and "a < 2 powi (expo a + 1)"
proof -
  have "2 powi expo a \<le> a \<and> a < 2 powi (expo a + 1)"
  proof (cases "1 \<le> a")
    case True
    define n where "n = \<lfloor>a\<rfloor>"
    have n: "0 < n" using True by (simp add: n_def)
    have b1: "1 \<le> bitlen n" using n by (simp add: bitlen_alt_def)
    from bitlen_bounds[OF n] have lo: "2 ^ nat (bitlen n - 1) \<le> n" and hi: "n < 2 ^ nat (bitlen n)"
      by auto
    have e: "expo a = bitlen n - 1" using True by (simp add: expo_def n_def)
    have "(2::real) powi expo a = 2 ^ nat (bitlen n - 1)"
      using b1 by (simp add: e power_int_def)
    also have "\<dots> \<le> of_int n"
      using of_int_le_iff[of "2 ^ nat (bitlen n - 1)" n, where ?'a = real] lo by simp
    also have "\<dots> \<le> a" by (simp add: n_def)
    finally have 1: "2 powi expo a \<le> a" .
    have "n + 1 \<le> 2 ^ nat (bitlen n)" using hi by simp
    then have "real_of_int (n + 1) \<le> 2 ^ nat (bitlen n)"
      using of_int_le_iff[of "n + 1" "2 ^ nat (bitlen n)", where ?'a = real] by simp
    moreover have "a < real_of_int (n + 1)" by (simp add: n_def)
    ultimately have "a < 2 ^ nat (bitlen n)" by linarith
    also have "\<dots> = 2 powi (expo a + 1)" using b1 by (simp add: e power_int_def)
    finally show ?thesis using 1 by simp
  next
    case False
    define k where "k = \<lceil>1 / a\<rceil> - 1"
    have "1 < 1 / a" using False assms by simp
    then have k: "0 < k" unfolding k_def by linarith
    have b1: "1 \<le> bitlen k" using k by (simp add: bitlen_alt_def)
    from bitlen_bounds[OF k] have lo: "2 ^ nat (bitlen k - 1) \<le> k" and hi: "k < 2 ^ nat (bitlen k)"
      by auto
    have e: "expo a = - bitlen k" using False by (simp add: expo_def k_def)
    have "real_of_int k < 1 / a" unfolding k_def by linarith
    moreover have "(2::real) ^ nat (bitlen k - 1) \<le> of_int k"
      using of_int_le_iff[of "2 ^ nat (bitlen k - 1)" k, where ?'a = real] lo by simp
    ultimately have "2 ^ nat (bitlen k - 1) < 1 / a" by linarith
    then have "a < 1 / 2 ^ nat (bitlen k - 1)"
      using assms by (simp add: field_simps)
    also have "\<dots> = 2 powi (expo a + 1)"
      using b1 by (simp add: e power_int_def field_simps nat_diff_distrib')
    finally have 2: "a < 2 powi (expo a + 1)" .
    have "k + 1 \<le> 2 ^ nat (bitlen k)" using hi by simp
    then have "real_of_int (k + 1) \<le> 2 ^ nat (bitlen k)"
      using of_int_le_iff[of "k + 1" "2 ^ nat (bitlen k)", where ?'a = real] by simp
    moreover have "1 / a \<le> real_of_int (k + 1)" unfolding k_def by simp
    ultimately have "1 / a \<le> 2 ^ nat (bitlen k)" by linarith
    then have "1 / 2 ^ nat (bitlen k) \<le> a"
      using assms by (simp add: field_simps)
    moreover have "1 / 2 ^ nat (bitlen k) = (2::real) powi expo a"
      using b1 by (simp add: e power_int_def field_simps)
    ultimately show ?thesis using 2 by simp
  qed
  then show "2 powi expo a \<le> a" and "a < 2 powi (expo a + 1)" by simp_all
qed


lemma two_powi_less_cancel: "(2::real) powi m < 2 powi n \<Longrightarrow> m < n"
  using power_int_increasing[of n m "2::real"] by (cases "m < n") auto

lemma expo_unique:
  assumes "0 < a" "2 powi e \<le> a" "a < 2 powi (e + 1)"
  shows "expo a = e"
proof -
  have "(2::real) powi expo a < 2 powi (e + 1)"
    using expo_bounds(1)[OF assms(1)] assms(3) by linarith
  then have "expo a < e + 1" by (rule two_powi_less_cancel)
  moreover have "(2::real) powi e < 2 powi (expo a + 1)"
    using expo_bounds(2)[OF assms(1)] assms(2) by linarith
  then have "e < expo a + 1" by (rule two_powi_less_cancel)
  ultimately show ?thesis by simp
qed

lemma expo_mono:
  assumes "0 < a" "a \<le> b"
  shows "expo a \<le> expo b"
proof -
  have "0 < b" using assms by simp
  have "(2::real) powi expo a < 2 powi (expo b + 1)"
    using expo_bounds(1)[OF assms(1)] expo_bounds(2)[OF \<open>0 < b\<close>] assms(2) by linarith
  then have "expo a < expo b + 1" by (rule two_powi_less_cancel)
  then show ?thesis by simp
qed

lemma two_powi_quantum:
  "(2::real) powi (e + 1) = 2 ^ 53 * 2 powi (e - 52)"
  "(2::real) powi e = 2 ^ 52 * 2 powi (e - 52)"
proof -
  have "(2::real) powi (53 + (e - 52)) = 2 powi 53 * 2 powi (e - 52)"
    by (rule power_int_add) simp
  moreover have "53 + (e - 52) = e + 1" by simp
  ultimately show "(2::real) powi (e + 1) = 2 ^ 53 * 2 powi (e - 52)"
    by (simp only: power_int_numeral)
  have "(2::real) powi (52 + (e - 52)) = 2 powi 52 * 2 powi (e - 52)"
    by (rule power_int_add) simp
  moreover have "52 + (e - 52) = e" by simp
  ultimately show "(2::real) powi e = 2 ^ 52 * 2 powi (e - 52)"
    by (simp only: power_int_numeral)
qed

lemma round_mag_nonneg:
  assumes "0 < a"
  shows "0 \<le> round_mag a"
proof -
  define q :: real where "q = 2 powi (max (expo a) (- 1022) - 52)"
  have q: "0 < q" by (simp add: q_def)
  have "rhe 0 \<le> rhe (a / q)"
    using assms q by (intro rhe_mono) simp
  then have "0 \<le> rhe (a / q)" using rhe_of_int[of 0] by simp
  then show ?thesis using q by (simp add: round_mag_def Let_def q_def)
qed

lemma round_mag_mono:
  assumes "0 < a" "a \<le> b"
  shows "round_mag a \<le> round_mag b"
proof -
  define ea where "ea = max (expo a) (- 1022)"
  define eb where "eb = max (expo b) (- 1022)"
  have b: "0 < b" using assms by simp
  have le: "ea \<le> eb" using expo_mono[OF assms] by (simp add: ea_def eb_def)
  have ra: "round_mag a = of_int (rhe (a / 2 powi (ea - 52))) * 2 powi (ea - 52)"
    by (simp add: round_mag_def Let_def ea_def)
  have rb: "round_mag b = of_int (rhe (b / 2 powi (eb - 52))) * 2 powi (eb - 52)"
    by (simp add: round_mag_def Let_def eb_def)
  show ?thesis
  proof (cases "ea = eb")
    case True
    have "a / 2 powi (eb - 52) \<le> b / 2 powi (eb - 52)"
      using assms by (simp add: divide_right_mono)
    then have "rhe (a / 2 powi (eb - 52)) \<le> rhe (b / 2 powi (eb - 52))"
      by (rule rhe_mono)
    then show ?thesis
      unfolding ra rb True by (simp add: mult_right_mono)
  next
    case False
    with le have lt: "ea < eb" by simp
    then have ebx: "eb = expo b" by (auto simp: eb_def ea_def max_def split: if_splits)
    have "a < 2 powi (expo a + 1)" by (rule expo_bounds(2)[OF assms(1)])
    also have "\<dots> \<le> 2 powi (ea + 1)"
      by (intro power_int_increasing) (simp_all add: ea_def)
    finally have "a / 2 powi (ea - 52) < 2 powi (ea + 1) / 2 powi (ea - 52)"
      by (simp add: divide_strict_right_mono)
    also have "\<dots> = 2 ^ 53" by (simp add: two_powi_quantum(1)[of ea])
    finally have "rhe (a / 2 powi (ea - 52)) \<le> rhe (of_int (2 ^ 53))"
      by (intro rhe_mono) simp
    then have "rhe (a / 2 powi (ea - 52)) \<le> 2 ^ 53" by (simp only: rhe_of_int)
    then have "real_of_int (rhe (a / 2 powi (ea - 52))) \<le> 2 ^ 53"
      using of_int_le_iff[of "rhe (a / 2 powi (ea - 52))" "2 ^ 53", where ?'a = real] by simp
    then have "round_mag a \<le> 2 ^ 53 * 2 powi (ea - 52)"
      unfolding ra by (simp add: mult_right_mono)
    also have "\<dots> = 2 powi (ea + 1)"
      by (simp only: two_powi_quantum(1)[of ea])
    also have "\<dots> \<le> 2 powi eb"
      using lt by (intro power_int_increasing) simp_all
    finally have A: "round_mag a \<le> 2 powi eb" .
    have "2 powi eb \<le> b" unfolding ebx by (rule expo_bounds(1)[OF b])
    then have "2 powi eb / 2 powi (eb - 52) \<le> b / 2 powi (eb - 52)"
      by (simp add: divide_right_mono)
    moreover have "2 powi eb / 2 powi (eb - 52) = (2::real) ^ 52"
      by (simp add: two_powi_quantum(2)[of eb])
    ultimately have "rhe (of_int (2 ^ 52)) \<le> rhe (b / 2 powi (eb - 52))"
      by (intro rhe_mono) simp
    then have "2 ^ 52 \<le> rhe (b / 2 powi (eb - 52))" by (simp only: rhe_of_int)
    then have "2 ^ 52 \<le> real_of_int (rhe (b / 2 powi (eb - 52)))"
      using of_int_le_iff[of "2 ^ 52" "rhe (b / 2 powi (eb - 52))", where ?'a = real] by simp
    then have "2 ^ 52 * 2 powi (eb - 52) \<le> round_mag b"
      unfolding rb by (simp add: mult_right_mono)
    moreover have "2 ^ 52 * 2 powi (eb - 52) = (2::real) powi eb"
      by (simp only: two_powi_quantum(2)[of eb])
    ultimately show ?thesis using A by linarith
  qed
qed

lemma round_mag_exact:
  assumes "2 ^ 52 \<le> k" "k < 2 ^ 53" "- 1074 \<le> j"
  shows "round_mag (of_int k * 2 powi j) = of_int k * 2 powi j"
proof -
  define a :: real where "a = of_int k * 2 powi j"
  have k1: "(2::real) ^ 52 \<le> of_int k"
    using of_int_le_iff[of "2 ^ 52" k, where ?'a = real] assms(1) by simp
  have k2: "real_of_int k < 2 ^ 53"
    using of_int_less_iff[of k "2 ^ 53", where ?'a = real] assms(2) by simp
  have "0 < real_of_int k" using k1 by (rule less_le_trans[rotated]) simp
  then have pos: "0 < a" by (simp add: a_def)
  have "2 powi (j + 52) = (2::real) ^ 52 * 2 powi j"
    using two_powi_quantum(2)[of "j + 52"] by simp
  also have "\<dots> \<le> a" unfolding a_def using k1 by (intro mult_right_mono) simp_all
  finally have lo: "2 powi (j + 52) \<le> a" .
  have "a < 2 ^ 53 * 2 powi j"
    unfolding a_def using k2 by (intro mult_strict_right_mono) simp_all
  also have "\<dots> = 2 powi (j + 52 + 1)"
    using two_powi_quantum(1)[of "j + 52"] by simp
  finally have hi: "a < 2 powi (j + 52 + 1)" .
  have e: "expo a = j + 52" by (rule expo_unique[OF pos lo hi])
  have m: "max (expo a) (- 1022) = j + 52" using assms(3) by (simp add: e)
  have "round_mag a = of_int (rhe (a / 2 powi j)) * 2 powi j"
    by (simp add: round_mag_def Let_def m)
  also have "a / 2 powi j = of_int k" by (simp add: a_def)
  finally show ?thesis by (simp add: rhe_of_int a_def)
qed

lemma round_mag_error:
  assumes "2 powi (- 1022) \<le> a"
  shows "\<bar>round_mag a - a\<bar> \<le> a / 2 ^ 53"
proof -
  have pos: "0 < a"
    using assms zero_less_power_int[of "2::real" "- 1022"] by linarith
  define e where "e = expo a"
  define q :: real where "q = 2 powi (e - 52)"
  have q: "0 < q" by (simp add: q_def)
  have "(2::real) powi (- 1022) < 2 powi (e + 1)"
    using expo_bounds(2)[OF pos] assms unfolding e_def by linarith
  then have "- 1022 < e + 1" by (rule two_powi_less_cancel)
  then have m: "max (expo a) (- 1022) = e" by (simp add: e_def)
  have r: "round_mag a = of_int (rhe (a / q)) * q"
    by (simp add: round_mag_def Let_def m q_def)
  have "\<bar>of_int (rhe (a / q)) - a / q\<bar> \<le> 1 / 2"
    using rhe_lower[of "a / q"] rhe_upper[of "a / q"] by linarith
  then have "\<bar>of_int (rhe (a / q)) - a / q\<bar> * q \<le> 1 / 2 * q"
    using q by (intro mult_right_mono) simp_all
  moreover have "\<bar>of_int (rhe (a / q)) - a / q\<bar> * q = \<bar>(of_int (rhe (a / q)) - a / q) * q\<bar>"
    using q by (intro abs_mult_pos) simp
  moreover have "(of_int (rhe (a / q)) - a / q) * q = round_mag a - a"
    using q by (simp add: r left_diff_distrib)
  ultimately have 1: "\<bar>round_mag a - a\<bar> \<le> q / 2" by simp
  have "q * 2 ^ 52 = 2 powi e"
    using two_powi_quantum(2)[of e] by (simp add: q_def)
  moreover have "2 powi e \<le> a" unfolding e_def by (rule expo_bounds(1)[OF pos])
  ultimately have "q * 2 ^ 52 \<le> a" by simp
  then have "q / 2 \<le> a / 2 ^ 53" by (simp add: field_simps)
  with 1 show ?thesis by linarith
qed

text \<open>
  In the normal range rounding changes a value by at most \<open>2^-53\<close> of it; the values used
  below are their own roundings.
\<close>

lemma round_mag_rel:
  assumes "2 powi (- 1022) \<le> a"
  shows "a * (1 - 1 / 2 ^ 53) \<le> round_mag a" and "round_mag a \<le> a * (1 + 1 / 2 ^ 53)"
proof -
  have "\<bar>round_mag a - a\<bar> \<le> a / 2 ^ 53" by (rule round_mag_error[OF assms])
  then have "a - a / 2 ^ 53 \<le> round_mag a" and "round_mag a \<le> a + a / 2 ^ 53"
    by linarith+
  then show "a * (1 - 1 / 2 ^ 53) \<le> round_mag a" and "round_mag a \<le> a * (1 + 1 / 2 ^ 53)"
    by (simp_all add: algebra_simps)
qed

lemma round_mag_values:
  "round_mag 1 = 1" "round_mag 100 = 100" "round_mag (2 ^ 63) = 2 ^ 63"
  "round_mag (1 / 2 ^ 63) = 1 / 2 ^ 63"
  "round_mag 2 = 2" "round_mag (1 / 2) = 1 / 2" "round_mag 50 = 50"
  using round_mag_exact[of "2 ^ 52" "- 52"] round_mag_exact[of "100 * 2 ^ 46" "- 46"]
    round_mag_exact[of "2 ^ 52" 11] round_mag_exact[of "2 ^ 52" "- 115"]
    round_mag_exact[of "2 ^ 52" "- 51"] round_mag_exact[of "2 ^ 52" "- 53"]
    round_mag_exact[of "100 * 2 ^ 46" "- 47"]
  by (simp_all add: power_int_minus_divide)

lemma round64_pos:
  assumes "0 < x" "round_mag x < 2 powi 1024"
  shows "round64 x = Finite (round_mag x)"
  using assms by (simp add: round64_def Let_def)

lemma powi_1022_small: "(2::real) powi (- 1022) \<le> 1 / 2 ^ 63"
proof -
  have "(2::real) powi (- 1022) \<le> 2 powi (- 63)"
    by (intro power_int_increasing) simp_all
  then show ?thesis by (simp add: power_int_minus_divide)
qed

lemma below_overflow:
  assumes "r \<le> 2 ^ 63"
  shows "(r::real) < 2 powi 1024"
proof -
  have "(2::real) powi 63 < 2 powi 1024"
    by (intro power_int_strict_increasing) simp_all
  then have "(2::real) ^ 63 < 2 powi 1024" by simp
  with assms show ?thesis by (rule le_less_trans)
qed

text \<open>A value that is not its own rounding: one third.\<close>

lemma round64_third: "round64 (1 / 3) = Finite (6004799503160661 / 18014398509481984)"
proof -
  have e: "expo (1 / 3) = - 2"
    by (rule expo_unique) (simp_all add: power_int_minus_divide)
  have "(1 / 3 :: real) / 2 powi (- 2 - 52) = 18014398509481984 / 3"
    by (simp add: power_int_minus_divide)
  moreover have "rhe (18014398509481984 / 3) = 6004799503160661"
    by (simp add: rhe_def Let_def)
  ultimately have "round_mag (1 / 3) = 6004799503160661 / 18014398509481984"
    by (simp add: round_mag_def Let_def e power_int_minus_divide)
  moreover have "(6004799503160661 / 18014398509481984 :: real) < 2 powi 1024"
    by (rule below_overflow) simp
  ultimately show ?thesis
    by (simp add: round64_pos)
qed

lemma float64_of_count:
  assumes "0 < n" "n < 2 ^ 63"
  shows "float64_of_int n = Finite (round_mag (of_int n))"
    and "1 \<le> round_mag (of_int n)" and "round_mag (of_int n) \<le> 2 ^ 63"
    and "of_int n * (1 - 1 / 2 ^ 53) \<le> round_mag (of_int n)"
    and "round_mag (of_int n) \<le> of_int n * (1 + 1 / 2 ^ 53)"
proof -
  have n1: "1 \<le> real_of_int n" using assms(1) by simp
  have n2: "real_of_int n \<le> 2 ^ 63"
    using of_int_le_iff[of n "2 ^ 63", where ?'a = real] assms(2) by simp
  have "round_mag 1 \<le> round_mag (of_int n)"
    using n1 by (intro round_mag_mono) simp_all
  then show lo: "1 \<le> round_mag (of_int n)"
    by (simp only: round_mag_values)
  have "round_mag (of_int n) \<le> round_mag (2 ^ 63)"
    using n1 n2 by (intro round_mag_mono) simp_all
  then show hi: "round_mag (of_int n) \<le> 2 ^ 63"
    by (simp only: round_mag_values)
  have "round_mag (of_int n) < 2 powi 1024"
    using hi by (rule below_overflow)
  then show "float64_of_int n = Finite (round_mag (of_int n))"
    using n1 by (simp add: float64_of_int_def round64_pos)
  have "(1::real) / 2 ^ 63 \<le> 1" by simp
  with powi_1022_small n1 have "(2::real) powi (- 1022) \<le> of_int n"
    by linarith
  then show "of_int n * (1 - 1 / 2 ^ 53) \<le> round_mag (of_int n)"
    and "round_mag (of_int n) \<le> of_int n * (1 + 1 / 2 ^ 53)"
    by (rule round_mag_rel)+
qed

lemma percent_tolerance:
  fixes c p A B D R :: real
  assumes c: "0 < c" and p: "0 < p"
    and A: "c * (1 - 1 / 2 ^ 53) \<le> A" "A \<le> c * (1 + 1 / 2 ^ 53)"
    and B: "p * (1 - 1 / 2 ^ 53) \<le> B" "B \<le> p * (1 + 1 / 2 ^ 53)"
    and D: "A / B * (1 - 1 / 2 ^ 53) \<le> D" "D \<le> A / B * (1 + 1 / 2 ^ 53)"
    and R: "D * 100 * (1 - 1 / 2 ^ 53) \<le> R" "R \<le> D * 100 * (1 + 1 / 2 ^ 53)"
  shows "\<bar>R - 100 * c / p\<bar> \<le> 100 * c / p / 2 ^ 50"
proof -
  define u :: real where "u = 1 / 2 ^ 53"
  have u: "0 < u" "u < 1" by (simp_all add: u_def)
  note A = A[folded u_def] and B = B[folded u_def] and D = D[folded u_def] and R = R[folded u_def]
  have Bpos: "0 < p * (1 - u)" using p u by simp
  then have B0: "0 < B" using B(1) by linarith
  have A0: "0 < A" using A(1) c u by (intro less_le_trans[OF _ A(1)]) simp
  have up: "A / B \<le> c * (1 + u) / (p * (1 - u))"
    using A(2) B(1) Bpos A0 by (intro frac_le) simp_all
  have lo: "c * (1 - u) / (p * (1 + u)) \<le> A / B"
    using A(1) B(2) B0 A0 by (intro frac_le) simp_all
  have X: "0 < c / p" using c p by simp
  have "D * 100 * (1 + u) \<le> A / B * (1 + u) * 100 * (1 + u)"
    using D(2) u by (intro mult_right_mono) simp_all
  with R(2) have "R \<le> A / B * (1 + u) * 100 * (1 + u)"
    by linarith
  also have "\<dots> \<le> c * (1 + u) / (p * (1 - u)) * (1 + u) * 100 * (1 + u)"
    using up u by (intro mult_right_mono) simp_all
  also have "\<dots> = 100 * c / p * ((1 + u) ^ 3 / (1 - u))"
    using p u by (simp add: power3_eq_cube field_simps)
  also have "\<dots> \<le> 100 * c / p * (1 + 1 / 2 ^ 50)"
  proof (intro mult_left_mono)
    show "(1 + u) ^ 3 / (1 - u) \<le> 1 + 1 / 2 ^ 50"
      by (simp add: u_def field_simps)
    show "0 \<le> 100 * c / p" using c p by simp
  qed
  finally have upper: "R \<le> 100 * c / p + 100 * c / p / 2 ^ 50"
    by (simp add: algebra_simps)
  have D0: "0 \<le> A / B * (1 - u)" using A0 B0 u by simp
  have "100 * c / p * ((1 - u) ^ 3 / (1 + u)) = c * (1 - u) / (p * (1 + u)) * (1 - u) * 100 * (1 - u)"
    using p u by (simp add: power3_eq_cube field_simps)
  also have "\<dots> \<le> A / B * (1 - u) * 100 * (1 - u)"
    using lo u by (intro mult_right_mono) simp_all
  also have "\<dots> \<le> D * 100 * (1 - u)"
    using D(1) u by (intro mult_right_mono) simp_all
  also have "\<dots> \<le> R" by (rule R(1))
  finally have "100 * c / p * ((1 - u) ^ 3 / (1 + u)) \<le> R" .
  moreover have "100 * c / p * (1 - 1 / 2 ^ 50) \<le> 100 * c / p * ((1 - u) ^ 3 / (1 + u))"
  proof (intro mult_left_mono)
    show "1 - 1 / 2 ^ 50 \<le> (1 - u) ^ 3 / (1 + u)"
      by (simp add: u_def field_simps)
    show "0 \<le> 100 * c / p" using c p by simp
  qed
  ultimately have lower: "100 * c / p - 100 * c / p / 2 ^ 50 \<le> R"
    by (simp add: algebra_simps)
  from upper lower show ?thesis by (simp add: abs_le_iff)
qed

text \<open>
  The expression \<open>(float64(c) / float64(p)) * 100\<close> for counts \<open>0 \<le> c \<le> p\<close>, \<open>0 < p\<close>: a
  finite number between 0 and 100, within \<open>2^-50\<close> (relative) of \<open>100 c / p\<close>.
\<close>

lemma percent_float:
  assumes c0: "0 \<le> c" and cp: "c \<le> p" and p0: "0 < p" and p63: "p < 2 ^ 63"
  shows "\<exists>r. fmul (fdiv (float64_of_int c) (float64_of_int p)) (Finite 100) = Finite r \<and>
             0 \<le> r \<and> r \<le> 100 \<and>
             \<bar>r - 100 * real_of_int c / real_of_int p\<bar>
               \<le> 100 * real_of_int c / real_of_int p / 2 ^ 50"
proof (cases "c = 0")
  case True
  define B where "B = round_mag (of_int p)"
  have fp: "float64_of_int p = Finite B" and B1: "1 \<le> B"
    using float64_of_count[OF p0 p63] by (simp_all add: B_def)
  have "fdiv (float64_of_int 0) (Finite B) = Finite 0"
    using B1 by (simp add: fdiv_def float64_of_int_def round64_def is_zero_def is_inf_def
        signed_zero_def)
  then have "fmul (fdiv (float64_of_int c) (float64_of_int p)) (Finite 100) = Finite 0"
    by (simp add: True fp fmul_def is_zero_def is_inf_def signed_zero_def)
  then show ?thesis by (simp add: True)
next
  case False
  with c0 have c1: "0 < c" by simp
  have c63: "c < 2 ^ 63" using cp p63 by simp
  define A where "A = round_mag (of_int c)"
  define B where "B = round_mag (of_int p)"
  define D where "D = round_mag (A / B)"
  define R where "R = round_mag (D * 100)"
  note cA = float64_of_count[OF c1 c63, folded A_def]
  note pB = float64_of_count[OF p0 p63, folded B_def]
  have AB: "A \<le> B"
    unfolding A_def B_def using c1 cp by (intro round_mag_mono) simp_all
  have A1: "1 \<le> A" and B1: "1 \<le> B" and B63: "B \<le> 2 ^ 63"
    using cA(2) pB(2,3) by simp_all
  have x0: "0 < A / B" using A1 B1 by simp
  have x1: "A / B \<le> 1" using AB B1 by simp
  have "1 / 2 ^ 63 \<le> 1 / B" using B63 B1 by (intro divide_left_mono) simp_all
  also have "1 / B \<le> A / B" using A1 B1 by (intro divide_right_mono) simp_all
  finally have xlo: "1 / 2 ^ 63 \<le> A / B" .
  have xn: "2 powi (- 1022) \<le> A / B"
    using powi_1022_small xlo by (rule order_trans)
  have "D \<le> round_mag 1" unfolding D_def using x0 x1 by (intro round_mag_mono)
  then have D1: "D \<le> 1" by (simp only: round_mag_values)
  have "round_mag (1 / 2 ^ 63) \<le> D" unfolding D_def using xlo by (intro round_mag_mono) simp_all
  then have Dlo: "1 / 2 ^ 63 \<le> D" by (simp only: round_mag_values)
  then have D0: "0 < D" by (rule less_le_trans[rotated]) simp
  have "D \<le> 2 ^ 63" using D1 by (rule order_trans) simp
  then have "round_mag (A / B) < 2 powi 1024"
    unfolding D_def by (rule below_overflow)
  then have dv: "round64 (A / B) = Finite D"
    using x0 by (simp add: round64_pos D_def)
  have fd: "fdiv (float64_of_int c) (float64_of_int p) = Finite D"
    using A1 B1 by (simp add: cA(1) pB(1) fdiv_def is_zero_def is_inf_def dv)
  have y0: "0 < D * 100" using D0 by simp
  have "R \<le> round_mag 100" unfolding R_def using y0 D1 by (intro round_mag_mono) simp_all
  then have R100: "R \<le> 100" by (simp only: round_mag_values)
  have R0: "0 \<le> R" unfolding R_def using y0 by (rule round_mag_nonneg)
  have "R \<le> 2 ^ 63" using R100 by (rule order_trans) simp
  then have "round_mag (D * 100) < 2 powi 1024"
    unfolding R_def by (rule below_overflow)
  then have ml: "round64 (D * 100) = Finite R"
    using y0 by (simp add: round64_pos R_def)
  have fm: "fmul (Finite D) (Finite 100) = Finite R"
    using D0 by (simp add: fmul_def is_zero_def is_inf_def ml)
  have "D \<le> D * 100" using D0 by simp
  with Dlo have "1 / 2 ^ 63 \<le> D * 100" by (rule order_trans)
  with powi_1022_small have yn: "2 powi (- 1022) \<le> D * 100"
    by (rule order_trans)
  have "\<bar>R - 100 * real_of_int c / real_of_int p\<bar> \<le> 100 * real_of_int c / real_of_int p / 2 ^ 50"
  proof (rule percent_tolerance[where A = A and B = B and D = D])
    show "0 < real_of_int c" "0 < real_of_int p" using c1 p0 by simp_all
    show "real_of_int c * (1 - 1 / 2 ^ 53) \<le> A" "A \<le> real_of_int c * (1 + 1 / 2 ^ 53)"
      by (rule cA(4) cA(5))+
    show "real_of_int p * (1 - 1 / 2 ^ 53) \<le> B" "B \<le> real_of_int p * (1 + 1 / 2 ^ 53)"
      by (rule pB(4) pB(5))+
    show "A / B * (1 - 1 / 2 ^ 53) \<le> D" "D \<le> A / B * (1 + 1 / 2 ^ 53)"
      unfolding D_def by (rule round_mag_rel[OF xn])+
    show "D * 100 * (1 - 1 / 2 ^ 53) \<le> R" "R \<le> D * 100 * (1 + 1 / 2 ^ 53)"
      unfolding R_def by (rule round_mag_rel[OF yn])+
  qed
  with fd fm R0 R100 show ?thesis by simp
qed

lemma percent_one_of_two:
  "fmul (fdiv (float64_of_int 1) (float64_of_int 2)) (Finite 100) = Finite 50"
proof -
  have big: "(2::real) < 2 powi 1024" "(1::real) < 2 powi 1024" "(50::real) < 2 powi 1024"
    "(1::real) / 2 < 2 powi 1024"
    by (rule below_overflow, simp)+
  have 1: "float64_of_int 1 = Finite 1" "float64_of_int 2 = Finite 2"
    using big by (simp_all add: float64_of_int_def round64_pos round_mag_values)
  have 2: "round64 (1 / 2) = Finite (1 / 2)" "round64 50 = Finite 50"
    using big by (simp_all add: round64_pos round_mag_values)
  show ?thesis
    using 2 by (simp add: 1 fdiv_def fmul_def is_zero_def is_inf_def)
qed

text \<open>Had the division been executed on a zero \<open>Pages\<close>, the result would be NaN.\<close>

lemma zero_over_zero_is_NaN:
  "fdiv (float64_of_int 0) (float64_of_int 0) = NaN"
  by (simp add: fdiv_def float64_of_int_def round64_def is_zero_def is_inf_def)

subsection \<open>Go's int\<close>

lemma sint_sum_nonneg:
  fixes a b :: "64 word"
  assumes "0 \<le> sint a" "0 \<le> sint b" "0 < sint (a + b)"
  shows "sint (a + b) = sint a + sint b"
proof -
  have a: "sint a < 2 ^ 63" and b: "sint b < 2 ^ 63"
    using sint_lt[of a] sint_lt[of b] by simp_all
  have s: "sint (a + b) = signed_take_bit 63 (sint a + sint b)"
    by (simp add: sint_word_ariths)
  show ?thesis
  proof (cases "sint a + sint b < 2 ^ 63")
    case True
    then show ?thesis using assms s
      by (simp add: signed_take_bit_int_eq_self)
  next
    case False
    then have "signed_take_bit 63 (sint a + sint b) \<le> sint a + sint b - 2 ^ Suc 63"
      by (intro signed_take_bit_int_less_eq) simp
    then show ?thesis using assms s a b by simp
  qed
qed

lemma sint_count_bound:
  fixes a :: "64 word"
  shows "sint a < 2 ^ 63"
  using sint_lt[of a] by simp

subsection \<open>Runs on the small system\<close>

lemma example_log_run:
  "GetPcStatus example_probe ''/data/log'' accept example_world =
     ((log_status, None),
      \<lparr>env = example_sys, next_fid = 4, open_files = [], calls = log_calls\<rparr>)"
  by (simp add: go_defs prim_defs Let_def example_defs mode_defs aggregate_def
        log_status_def log_calls_def percent_one_of_two)

lemma example_empty_run:
  "GetPcStatus (GetFileMincore example_probe) ''/data/empty'' accept example_world =
     ((empty_status, None),
      \<lparr>env = example_sys, next_fid = 4, open_files = [], calls = empty_calls\<rparr>)"
  by (simp add: go_defs prim_defs Let_def example_defs mode_defs GetFileMincore_def
        empty_status_def empty_calls_def)

lemma example_open:
  "sys_open (env example_world) ''/data/log'' = None"
  "sys_open (env example_world) ''/data/empty'' = None"
  "sys_open (env example_world) ''/data'' = None"
  "sys_open (env example_world) ''/dev/sda'' = None"
  "sys_open example_sys ''/dev/sda'' = None"
  by (simp_all add: example_defs)

lemma example_accept:
  "accept (new_File example_world p) (env example_world) = (None, example_sys)"
  by (simp add: example_defs)

lemma example_fstat:
  "sys_fstat example_sys (new_File example_world p) = example_stat p"
  "sys_stat example_sys p = example_stat p"
  by (simp_all add: example_sys_def new_File_def)

lemma example_stat_values:
  "example_stat ''/data/log'' = Inr \<lparr>fi_Size = 8192, fi_Mode = 0x1A4, fi_ModTime = 1600\<rparr>"
  "example_stat ''/data/empty'' = Inr \<lparr>fi_Size = 0, fi_Mode = 0x1A4, fi_ModTime = 1601\<rparr>"
  "example_stat ''/data'' = Inr \<lparr>fi_Size = 4096, fi_Mode = ModeDir OR 0x1ED, fi_ModTime = 1602\<rparr>"
  "example_stat ''/dev/sda'' =
     Inr \<lparr>fi_Size = 0, fi_Mode = ModeDevice OR 0x1B0, fi_ModTime = 1603\<rparr>"
  by (simp_all add: example_stat_def)

lemma example_modes:
  "\<not> blockMode 0x1A4" "blockMode (ModeDevice OR 0x1B0)"
  "\<not> IsDir \<lparr>fi_Size = 0, fi_Mode = 0x1A4, fi_ModTime = 1601\<rparr>"
  "IsDir \<lparr>fi_Size = 4096, fi_Mode = ModeDir OR 0x1ED, fi_ModTime = 1602\<rparr>"
  "\<not> IsDir \<lparr>fi_Size = 0, fi_Mode = ModeDevice OR 0x1B0, fi_ModTime = 1603\<rparr>"
  by (simp_all add: mode_defs)

subsection \<open>The counts of a successful probe\<close>

text \<open>
  C1: every call of \<open>GetPcStatus\<close> that returns without an error has invoked the residency
  probe, and its record satisfies \<open>Pages = Cached + Uncached\<close> (the addition of Go's
  \<open>int\<close>), where \<open>Cached\<close> and \<open>Uncached\<close> are the cached and miss counts of the
  report (both 0 when the report is absent).
\<close>

theorem pages_eq_cached_plus_uncached:
  assumes "GetPcStatus prov fname filt w = ((pcs, None), w')"
  shows "FileMincore (new_File w fname) (Size pcs) \<in> set (issued w w') \<and>
         Pages pcs = Cached pcs + Uncached pcs \<and>
         (case fst (prov (new_File w fname) (Size pcs) (env w')) of
            Some r \<Rightarrow> Cached pcs = mc_Cached r \<and> Uncached pcs = mc_Miss r
          | None \<Rightarrow> Cached pcs = 0 \<and> Uncached pcs = 0)"
  by (rule probe_inversion[OF assms, of undefined undefined])
     (auto simp: aggregate_fields split: prod.splits option.splits)

text \<open>The regular file of two pages, one of them resident.\<close>

theorem pages_eq_cached_plus_uncached_witness:
  "GetPcStatus example_probe ''/data/log'' accept example_world =
     ((log_status, None),
      \<lparr>env = example_sys, next_fid = 4, open_files = [], calls = log_calls\<rparr>) \<and>
   Pages log_status = Cached log_status + Uncached log_status \<and>
   Cached log_status = 1 \<and> Uncached log_status = 1"
  using example_log_run pages_eq_cached_plus_uncached [OF example_log_run]
  by (simp add: new_File_def example_defs)

text \<open>
  C2: for every successful probe whose record has \<open>Pages > 0\<close>, the counts of the report
  being nonnegative, \<open>Percent\<close> is the binary64 value of
  \<open>(float64(Cached) / float64(Pages)) * 100\<close>: a finite number between 0 and 100 that
  equals \<open>100 \<times> Cached / Pages\<close> up to rounding, with a relative error of at most
  \<open>2^-50\<close>.
\<close>

theorem percent_of_successful_probe:
  assumes run: "GetPcStatus prov fname filt w = ((pcs, None), w')"
    and pg: "0 < sint (Pages pcs)"
    and ca: "0 \<le> sint (Cached pcs)" and un: "0 \<le> sint (Uncached pcs)"
  shows "Percent pcs =
           fmul (fdiv (float64_of_int (sint (Cached pcs))) (float64_of_int (sint (Pages pcs))))
                (Finite 100) \<and>
         (\<exists>r. Percent pcs = Finite r \<and> 0 \<le> r \<and> r \<le> 100 \<and>
             \<bar>r - 100 * real_of_int (sint (Cached pcs)) / real_of_int (sint (Pages pcs))\<bar>
               \<le> 100 * real_of_int (sint (Cached pcs)) / real_of_int (sint (Pages pcs)) / 2 ^ 50)"
proof (rule probe_inversion[OF run, of undefined undefined])
  show "None = None \<or> FileMincore undefined undefined \<in> set (issued w w')" by simp
next
  fix s sz0
  assume "case prov (new_File w fname) sz0 s of
         (_, Some e) \<Rightarrow> None = Some e \<and> Pages pcs = 0 \<and> Cached pcs = 0 \<and> Uncached pcs = 0
                          \<and> Percent pcs = Finite 0
       | (None, None) \<Rightarrow> None = None \<and> Pages pcs = 0 \<and> Cached pcs = 0 \<and> Uncached pcs = 0
                          \<and> Percent pcs = Finite 0
       | (Some m, None) \<Rightarrow> None = None \<and> (\<exists>p. pcs = aggregate p m)"
  with pg obtain p0 m where pcs: "pcs = aggregate p0 m"
    by (auto split: prod.splits option.splits)
  define c where "c = sint (mc_Cached m)"
  define p where "p = sint (mc_Cached m + mc_Miss m)"
  have f: "Cached pcs = mc_Cached m" "Uncached pcs = mc_Miss m"
    "Pages pcs = mc_Cached m + mc_Miss m"
    "Percent pcs = fmul (fdiv (float64_of_int c) (float64_of_int p)) (Finite 100)"
    by (simp_all add: pcs aggregate_fields c_def p_def)
  have "p = c + sint (mc_Miss m)"
    unfolding p_def c_def using ca un pg by (intro sint_sum_nonneg) (simp_all add: f)
  then have cp: "c \<le> p" using un by (simp add: f)
  have c0: "0 \<le> c" using ca by (simp add: f c_def)
  have p0: "0 < p" using pg by (simp add: f p_def)
  have p63: "p < 2 ^ 63" unfolding p_def by (rule sint_count_bound)
  from percent_float[OF c0 cp p0 p63] show ?thesis
    by (simp add: f c_def p_def)
qed

text \<open>The regular file again: one page of two gives 50.\<close>

theorem percent_of_successful_probe_witness:
  "GetPcStatus example_probe ''/data/log'' accept example_world =
     ((log_status, None),
      \<lparr>env = example_sys, next_fid = 4, open_files = [], calls = log_calls\<rparr>) \<and>
   0 < sint (Pages log_status) \<and> 0 \<le> sint (Cached log_status) \<and>
   0 \<le> sint (Uncached log_status) \<and>
   Percent log_status = Finite 50 \<and>
   fmul (fdiv (float64_of_int (sint (Cached log_status)))
              (float64_of_int (sint (Pages log_status)))) (Finite 100) = Finite 50 \<and>
   (\<exists>r. Percent log_status = Finite r \<and> 0 \<le> r \<and> r \<le> 100 \<and>
        \<bar>r - 100 * real_of_int (sint (Cached log_status)) / real_of_int (sint (Pages log_status))\<bar>
          \<le> 100 * real_of_int (sint (Cached log_status)) / real_of_int (sint (Pages log_status))
               / 2 ^ 50)"
proof -
  have h: "0 < sint (Pages log_status)" "0 \<le> sint (Cached log_status)"
    "0 \<le> sint (Uncached log_status)"
    by (simp_all add: log_status_def)
  have v: "Percent log_status = Finite 50"
    by (simp add: log_status_def)
  note t = percent_of_successful_probe [OF example_log_run h]
  have "fmul (fdiv (float64_of_int (sint (Cached log_status)))
              (float64_of_int (sint (Pages log_status)))) (Finite 100) = Finite 50"
    using v unfolding conjunct1 [OF t] .
  with example_log_run h v conjunct2 [OF t] show ?thesis
    by blast
qed

subsection \<open>The empty target\<close>

text \<open>
  C3: when the size of the target resolves to 0 (an empty regular file, or a block device
  whose size query answers 0), \<open>GetPcStatus\<close> with the provider of the spec succeeds with
  \<open>Pages\<close>, \<open>Cached\<close> and \<open>Uncached\<close> 0 and \<open>Percent\<close> at its zero value: the division
  is not executed.
\<close>

theorem empty_target_all_zero:
  assumes "sys_open (env w) fname = None"
    and "filt (new_File w fname) (env w) = (None, s)"
    and "sys_fstat s (new_File w fname) = Inr finfo"
    and "\<not> IsDir finfo"
    and "sys_stat s fname = Inr info"
    and "if blockMode (fi_Mode info)
         then sys_open s fname = None \<and>
              sys_ioctl s \<lparr>fid = next_fid w + 1, fpath = fname\<rparr> BLKGETSIZE64 = (0, 0)
         else fi_Size finfo = 0"
  shows "fst (GetPcStatus (GetFileMincore probe) fname filt w) =
           (\<lparr>Name = fname, Size = 0, Timestamp = sys_now s, Mtime = fi_ModTime finfo,
             Pages = 0, Cached = 0, Uncached = 0, Percent = Finite 0\<rparr>, None)"
  using assms
  by (cases "blockMode (fi_Mode info)")
     (simp_all add: go_defs prim_defs Let_def GetFileMincore_def)

text \<open>The empty regular file; the underlying probe would fail on it.\<close>

theorem empty_target_all_zero_witness:
  "fst (GetPcStatus (GetFileMincore example_probe) ''/data/empty'' accept example_world) =
     (\<lparr>Name = ''/data/empty'', Size = 0, Timestamp = 1700, Mtime = 1601,
       Pages = 0, Cached = 0, Uncached = 0, Percent = Finite 0\<rparr>, None) \<and>
   example_probe \<lparr>fid = 3, fpath = ''/data/empty''\<rparr> 0 example_sys =
     (None, Some (Foreign ''cannot allocate memory''))"
proof -
  let ?info = "\<lparr>fi_Size = 0, fi_Mode = 0x1A4, fi_ModTime = 1601\<rparr>"
  have h3: "sys_fstat example_sys (new_File example_world ''/data/empty'') = Inr ?info"
    by (simp add: example_fstat example_stat_values)
  have h4: "\<not> IsDir ?info"
    by (simp add: example_modes)
  have h5: "sys_stat example_sys ''/data/empty'' = Inr ?info"
    by (simp add: example_fstat example_stat_values)
  have h6: "if blockMode (fi_Mode ?info)
         then sys_open example_sys ''/data/empty'' = None \<and>
              sys_ioctl example_sys
                \<lparr>fid = next_fid example_world + 1, fpath = ''/data/empty''\<rparr> BLKGETSIZE64 =
                (0, 0)
         else fi_Size ?info = 0"
    by (simp add: example_modes)
  show ?thesis
    using empty_target_all_zero [where w = example_world and filt = accept
        and probe = example_probe, OF example_open(2) example_accept h3 h4 h5 h6]
    by (simp add: example_sys_def example_probe_def)
qed

subsection \<open>The filter\<close>

text \<open>
  C4: when the filter returns an error on the opened handle, \<open>GetPcStatus\<close> returns the
  record with \<open>Name\<close> set and every numeric field at zero, together with the filter's own
  error; the only calls it issues are the open, the filter and the close, so neither a
  stat, nor the device-size query, nor the residency probe is invoked.
\<close>

theorem filter_error_aborts:
  assumes "sys_open (env w) fname = None"
    and "filt (new_File w fname) (env w) = (Some e, s)"
  shows "fst (GetPcStatus prov fname filt w) =
           (\<lparr>Name = fname, Size = 0, Timestamp = 0, Mtime = 0, Pages = 0, Cached = 0,
             Uncached = 0, Percent = Finite 0\<rparr>, Some e) \<and>
         issued w (snd (GetPcStatus prov fname filt w)) =
           [OsOpen fname (Some (new_File w fname)), FilterCall (new_File w fname),
            FileClose (new_File w fname)]"
  using assms
  by (simp add: go_defs prim_defs Let_def issued_def)

theorem filter_error_aborts_witness:
  "reject (new_File example_world ''/data/log'') (env example_world) =
     (Some (Foreign ''rejected by policy''), example_sys) \<and>
   fst (GetPcStatus example_probe ''/data/log'' reject example_world) =
     (\<lparr>Name = ''/data/log'', Size = 0, Timestamp = 0, Mtime = 0, Pages = 0, Cached = 0,
       Uncached = 0, Percent = Finite 0\<rparr>, Some (Foreign ''rejected by policy'')) \<and>
   issued example_world (snd (GetPcStatus example_probe ''/data/log'' reject example_world)) =
     [OsOpen ''/data/log'' (Some \<lparr>fid = 3, fpath = ''/data/log''\<rparr>),
      FilterCall \<lparr>fid = 3, fpath = ''/data/log''\<rparr>,
      FileClose \<lparr>fid = 3, fpath = ''/data/log''\<rparr>]"
proof -
  have h2: "reject (new_File example_world ''/data/log'') (env example_world) =
     (Some (Foreign ''rejected by policy''), example_sys)"
    by (simp add: example_defs)
  show ?thesis
    using h2 filter_error_aborts [where w = example_world and filt = reject
        and prov = example_probe, OF example_open(1) h2]
    by (simp add: new_File_def example_world_def)
qed

subsection \<open>Size resolution\<close>

text \<open>
  C5: for a target whose path stats as a block device (a device that is not a character
  device), \<open>Size\<close> is the value the device-size query returns, not the size of the stat;
  for any other target that is not a directory, \<open>Size\<close> is the size the stat of the
  handle reports.
\<close>

theorem size_of_device_and_file:
  assumes "sys_open (env w) fname = None"
    and "filt (new_File w fname) (env w) = (None, s)"
    and "sys_fstat s (new_File w fname) = Inr finfo"
    and "\<not> IsDir finfo"
    and "sys_stat s fname = Inr info"
    and "blockMode (fi_Mode info) \<longrightarrow>
           sys_open s fname = None \<and>
           snd (sys_ioctl s \<lparr>fid = next_fid w + 1, fpath = fname\<rparr> BLKGETSIZE64) = 0"
  shows "Size (fst (fst (GetPcStatus prov fname filt w))) =
           (if blockMode (fi_Mode info)
            then fst (sys_ioctl s \<lparr>fid = next_fid w + 1, fpath = fname\<rparr> BLKGETSIZE64)
            else fi_Size finfo)"
  using assms
  by (cases "blockMode (fi_Mode info)")
     (auto simp add: go_defs prim_defs Let_def aggregate_fields split: prod.splits option.splits)

text \<open>The block device: its stat size is 0, the query answers 1048576.\<close>

theorem size_of_device_and_file_witness:
  "blockMode (fi_Mode \<lparr>fi_Size = 0, fi_Mode = ModeDevice OR 0x1B0, fi_ModTime = 1603\<rparr>) \<and>
   sys_ioctl example_sys \<lparr>fid = 4, fpath = ''/dev/sda''\<rparr> BLKGETSIZE64 = (1048576, 0) \<and>
   Size (fst (fst (GetPcStatus example_probe ''/dev/sda'' accept example_world))) = 1048576 \<and>
   \<not> blockMode (fi_Mode \<lparr>fi_Size = 8192, fi_Mode = 0x1A4, fi_ModTime = 1600\<rparr>) \<and>
   Size (fst (fst (GetPcStatus example_probe ''/data/log'' accept example_world))) = 8192"
proof -
  let ?info = "\<lparr>fi_Size = 0, fi_Mode = ModeDevice OR 0x1B0, fi_ModTime = 1603\<rparr>"
  have h3: "sys_fstat example_sys (new_File example_world ''/dev/sda'') = Inr ?info"
    by (simp add: example_fstat example_stat_values)
  have h4: "\<not> IsDir ?info"
    by (simp add: example_modes)
  have h5: "sys_stat example_sys ''/dev/sda'' = Inr ?info"
    by (simp add: example_fstat example_stat_values)
  have b: "blockMode (fi_Mode ?info)"
    by (simp add: example_modes)
  have io: "sys_ioctl example_sys \<lparr>fid = 4, fpath = ''/dev/sda''\<rparr> BLKGETSIZE64 = (1048576, 0)"
    by (simp add: example_sys_def)
  have h6: "blockMode (fi_Mode ?info) \<longrightarrow>
              sys_open example_sys ''/dev/sda'' = None \<and>
              snd (sys_ioctl example_sys
                     \<lparr>fid = next_fid example_world + 1, fpath = ''/dev/sda''\<rparr> BLKGETSIZE64) = 0"
    by (simp add: example_defs)
  let ?log = "\<lparr>fi_Size = 8192, fi_Mode = 0x1A4, fi_ModTime = 1600\<rparr>"
  have g3: "sys_fstat example_sys (new_File example_world ''/data/log'') = Inr ?log"
    by (simp add: example_fstat example_stat_values)
  have g4: "\<not> IsDir ?log"
    by (simp add: mode_defs)
  have g5: "sys_stat example_sys ''/data/log'' = Inr ?log"
    by (simp add: example_fstat example_stat_values)
  have nb: "\<not> blockMode (fi_Mode ?log)"
    by (simp add: example_modes)
  then have g6: "blockMode (fi_Mode ?log) \<longrightarrow>
              sys_open example_sys ''/data/log'' = None \<and>
              snd (sys_ioctl example_sys
                     \<lparr>fid = next_fid example_world + 1, fpath = ''/data/log''\<rparr> BLKGETSIZE64) = 0"
    by simp
  show ?thesis
    using size_of_device_and_file [where w = example_world and filt = accept
        and prov = example_probe, OF example_open(4) example_accept h3 h4 h5 h6]
      size_of_device_and_file [where w = example_world and filt = accept
        and prov = example_probe, OF example_open(1) example_accept g3 g4 g5 g6] b io nb
    by (simp add: example_world_def)
qed

text \<open>
  C6, as the code has it: for a block-device target, size resolution opens the path a
  second time; the device-size query is issued against that second handle, which is closed
  right after it, and never against the handle on which the filter ran.
\<close>

theorem device_size_query_on_second_handle:
  assumes "sys_open (env w) fname = None"
    and "filt (new_File w fname) (env w) = (None, s)"
    and "sys_fstat s (new_File w fname) = Inr finfo"
    and "\<not> IsDir finfo"
    and "sys_stat s fname = Inr info"
    and "blockMode (fi_Mode info)"
    and "sys_open s fname = None"
  shows "take 7 (issued w (snd (GetPcStatus prov fname filt w))) =
           [OsOpen fname (Some (new_File w fname)), FilterCall (new_File w fname),
            FileStat (new_File w fname), OsStat fname,
            OsOpen fname (Some \<lparr>fid = next_fid w + 1, fpath = fname\<rparr>),
            Ioctl \<lparr>fid = next_fid w + 1, fpath = fname\<rparr> BLKGETSIZE64,
            FileClose \<lparr>fid = next_fid w + 1, fpath = fname\<rparr>]
         \<and> \<lparr>fid = next_fid w + 1, fpath = fname\<rparr> \<noteq> new_File w fname
         \<and> Ioctl (new_File w fname) BLKGETSIZE64
               \<notin> set (issued w (snd (GetPcStatus prov fname filt w)))"
  using assms
  by (auto simp add: go_defs prim_defs Let_def issued_def split: prod.splits option.splits)

theorem device_size_query_on_second_handle_witness:
  "take 7 (issued example_world
             (snd (GetPcStatus example_probe ''/dev/sda'' accept example_world))) =
     [OsOpen ''/dev/sda'' (Some \<lparr>fid = 3, fpath = ''/dev/sda''\<rparr>),
      FilterCall \<lparr>fid = 3, fpath = ''/dev/sda''\<rparr>,
      FileStat \<lparr>fid = 3, fpath = ''/dev/sda''\<rparr>, OsStat ''/dev/sda'',
      OsOpen ''/dev/sda'' (Some \<lparr>fid = 4, fpath = ''/dev/sda''\<rparr>),
      Ioctl \<lparr>fid = 4, fpath = ''/dev/sda''\<rparr> BLKGETSIZE64,
      FileClose \<lparr>fid = 4, fpath = ''/dev/sda''\<rparr>] \<and>
   Ioctl \<lparr>fid = 3, fpath = ''/dev/sda''\<rparr> BLKGETSIZE64
     \<notin> set (issued example_world
               (snd (GetPcStatus example_probe ''/dev/sda'' accept example_world)))"
proof -
  let ?info = "\<lparr>fi_Size = 0, fi_Mode = ModeDevice OR 0x1B0, fi_ModTime = 1603\<rparr>"
  have h3: "sys_fstat example_sys (new_File example_world ''/dev/sda'') = Inr ?info"
    by (simp add: example_fstat example_stat_values)
  have h4: "\<not> IsDir ?info"
    by (simp add: example_modes)
  have h5: "sys_stat example_sys ''/dev/sda'' = Inr ?info"
    by (simp add: example_fstat example_stat_values)
  have h6: "blockMode (fi_Mode ?info)"
    by (simp add: example_modes)
  show ?thesis
    using device_size_query_on_second_handle [where w = example_world and filt = accept
        and prov = example_probe, OF example_open(4) example_accept h3 h4 h5 h6 example_open(5)]
    by (simp add: example_world_def new_File_def)
qed

text \<open>
  C6, as the spec states it, fails: probing the block device of the small system opens
  the path twice, and the query goes to the second handle (\<open>fid = 4\<close>), not to the handle
  of the pipeline (\<open>fid = 3\<close>).
\<close>

theorem device_size_query_reopens_path:
  "issued example_world (snd (GetPcStatus example_probe ''/dev/sda'' accept example_world)) =
     [OsOpen ''/dev/sda'' (Some \<lparr>fid = 3, fpath = ''/dev/sda''\<rparr>),
      FilterCall \<lparr>fid = 3, fpath = ''/dev/sda''\<rparr>,
      FileStat \<lparr>fid = 3, fpath = ''/dev/sda''\<rparr>,
      OsStat ''/dev/sda'',
      OsOpen ''/dev/sda'' (Some \<lparr>fid = 4, fpath = ''/dev/sda''\<rparr>),
      Ioctl \<lparr>fid = 4, fpath = ''/dev/sda''\<rparr> BLKGETSIZE64,
      FileClose \<lparr>fid = 4, fpath = ''/dev/sda''\<rparr>,
      TimeNow,
      FileMincore \<lparr>fid = 3, fpath = ''/dev/sda''\<rparr> 1048576,
      FileClose \<lparr>fid = 3, fpath = ''/dev/sda''\<rparr>] \<and>
   Ioctl \<lparr>fid = 3, fpath = ''/dev/sda''\<rparr> BLKGETSIZE64
     \<notin> set (issued example_world
               (snd (GetPcStatus example_probe ''/dev/sda'' accept example_world))) \<and>
   OsOpen ''/dev/sda'' (Some \<lparr>fid = 4, fpath = ''/dev/sda''\<rparr>)
     \<in> set (issued example_world
               (snd (GetPcStatus example_probe ''/dev/sda'' accept example_world)))"
  by (simp add: go_defs prim_defs Let_def issued_def example_defs mode_defs)

subsection \<open>Directories\<close>

text \<open>
  C7: when the handle stats as a directory (after the filter let it through),
  \<open>GetPcStatus\<close> returns the error \<open>file is a directory\<close> and a record with nothing but
  \<open>Name\<close> set: \<open>Size\<close>, \<open>Pages\<close>, \<open>Cached\<close>, \<open>Uncached\<close> and \<open>Percent\<close> are zero.
\<close>

theorem directory_is_an_error:
  assumes "sys_open (env w) fname = None"
    and "filt (new_File w fname) (env w) = (None, s)"
    and "sys_fstat s (new_File w fname) = Inr finfo"
    and "IsDir finfo"
  shows "fst (GetPcStatus prov fname filt w) =
           (\<lparr>Name = fname, Size = 0, Timestamp = 0, Mtime = 0, Pages = 0, Cached = 0,
              Uncached = 0, Percent = Finite 0\<rparr>, Some (ErrorsNew ''file is a directory''))"
  using assms
  by (simp add: go_defs prim_defs Let_def)

theorem directory_is_an_error_witness:
  "IsDir \<lparr>fi_Size = 4096, fi_Mode = ModeDir OR 0x1ED, fi_ModTime = 1602\<rparr> \<and>
   fst (GetPcStatus example_probe ''/data'' accept example_world) =
     (\<lparr>Name = ''/data'', Size = 0, Timestamp = 0, Mtime = 0, Pages = 0, Cached = 0,
       Uncached = 0, Percent = Finite 0\<rparr>, Some (ErrorsNew ''file is a directory''))"
proof -
  let ?info = "\<lparr>fi_Size = 4096, fi_Mode = ModeDir OR 0x1ED, fi_ModTime = 1602\<rparr>"
  have h3: "sys_fstat example_sys (new_File example_world ''/data'') = Inr ?info"
    by (simp add: example_fstat example_stat_values)
  have h4: "IsDir ?info"
    by (simp add: example_modes)
  show ?thesis
    using h4 directory_is_an_error [where w = example_world and filt = accept
        and prov = example_probe, OF example_open(3) example_accept h3 h4]
    by simp
qed

text \<open>
  C10: the directory check comes before block-device detection, size resolution, the
  timestamp and the residency probe: for a target that stats as a directory the calls
  issued are the open, the filter, the stat of the handle and the close, and nothing else.
\<close>

theorem directory_check_comes_first:
  assumes "sys_open (env w) fname = None"
    and "filt (new_File w fname) (env w) = (None, s)"
    and "sys_fstat s (new_File w fname) = Inr finfo"
    and "IsDir finfo"
  shows "issued w (snd (GetPcStatus prov fname filt w)) =
           [OsOpen fname (Some (new_File w fname)), FilterCall (new_File w fname),
            FileStat (new_File w fname), FileClose (new_File w fname)]"
  using assms
  by (simp add: go_defs prim_defs Let_def issued_def)

theorem directory_check_comes_first_witness:
  "issued example_world (snd (GetPcStatus example_probe ''/data'' accept example_world)) =
     [OsOpen ''/data'' (Some \<lparr>fid = 3, fpath = ''/data''\<rparr>),
      FilterCall \<lparr>fid = 3, fpath = ''/data''\<rparr>,
      FileStat \<lparr>fid = 3, fpath = ''/data''\<rparr>, FileClose \<lparr>fid = 3, fpath = ''/data''\<rparr>]"
proof -
  let ?info = "\<lparr>fi_Size = 4096, fi_Mode = ModeDir OR 0x1ED, fi_ModTime = 1602\<rparr>"
  have h3: "sys_fstat example_sys (new_File example_world ''/data'') = Inr ?info"
    by (simp add: example_fstat example_stat_values)
  have h4: "IsDir ?info"
    by (simp add: example_modes)
  show ?thesis
    using directory_check_comes_first [where w = example_world and filt = accept
        and prov = example_probe, OF example_open(3) example_accept h3 h4]
    by (simp add: new_File_def example_world_def)
qed

subsection \<open>The handle\<close>

text \<open>
  C8: whenever the target was opened, the handle is closed when \<open>GetPcStatus\<close> returns,
  whatever the path through the function: it is not among the open files of the final
  world, and closing it is the last call issued.
\<close>

theorem handle_closed_on_return:
  assumes "sys_open (env w) fname = None"
  shows "new_File w fname \<notin> set (open_files (snd (GetPcStatus prov fname filt w))) \<and>
         last (calls (snd (GetPcStatus prov fname filt w))) = FileClose (new_File w fname)"
  using assms
  by (simp add: GetPcStatus_def os_Open_def File_Close_def log_call_def Let_def
        split: prod.splits)

theorem handle_closed_on_return_witness:
  "\<lparr>fid = 3, fpath = ''/dev/sda''\<rparr>
     \<notin> set (open_files (snd (GetPcStatus example_probe ''/dev/sda'' accept example_world))) \<and>
   last (calls (snd (GetPcStatus example_probe ''/dev/sda'' accept example_world))) =
     FileClose \<lparr>fid = 3, fpath = ''/dev/sda''\<rparr>"
  using handle_closed_on_return [where w = example_world and filt = accept
      and prov = example_probe, OF example_open(4)]
  by (simp add: new_File_def example_world_def)

subsection \<open>The absent report\<close>

text \<open>
  C9: when the residency provider, invoked by \<open>GetPcStatus\<close> on \<open>f\<close> and \<open>sz\<close>, returns
  no report and no error, the call succeeds: \<open>Pages\<close>, \<open>Cached\<close>, \<open>Uncached\<close> and
  \<open>Percent\<close> stay zero, and \<open>Name\<close>, \<open>Size\<close>, \<open>Timestamp\<close> and \<open>Mtime\<close> hold the
  values resolved before the probe.
\<close>

theorem absent_report_is_success:
  assumes "GetPcStatus prov fname filt w = ((pcs, err), w')"
    and "FileMincore f sz \<in> set (issued w w')"
    and "prov f sz (env w') = (None, None)"
  shows "err = None \<and> Pages pcs = 0 \<and> Cached pcs = 0 \<and> Uncached pcs = 0 \<and>
         Percent pcs = Finite 0 \<and> Name pcs = fname \<and> Size pcs = sz \<and>
         Timestamp pcs = sys_now (env w') \<and>
         (\<exists>finfo. sys_fstat (env w') f = Inr finfo \<and> Mtime pcs = fi_ModTime finfo)"
  by (rule probe_inversion[OF assms(1), of f sz]) (use assms(2,3) in auto)

theorem absent_report_is_success_witness:
  "GetPcStatus (GetFileMincore example_probe) ''/data/empty'' accept example_world =
     ((empty_status, None),
      \<lparr>env = example_sys, next_fid = 4, open_files = [], calls = empty_calls\<rparr>) \<and>
   Name empty_status = ''/data/empty'' \<and> Size empty_status = 0 \<and>
   Timestamp empty_status = 1700 \<and> Mtime empty_status = 1601 \<and> Pages empty_status = 0"
proof -
  let ?f = "\<lparr>fid = 3, fpath = ''/data/empty''\<rparr>"
  let ?w = "\<lparr>env = example_sys, next_fid = 4, open_files = [], calls = empty_calls\<rparr>"
  have h2: "FileMincore ?f 0 \<in> set (issued example_world ?w)"
    by (simp add: issued_def example_world_def empty_calls_def)
  have h3: "GetFileMincore example_probe ?f 0 (env ?w) = (None, None)"
    by (simp add: GetFileMincore_def)
  show ?thesis
    using example_empty_run absent_report_is_success [OF example_empty_run h2 h3]
    by (simp add: empty_status_def)
qed

end
